theory Spec2Isabelle
  imports Complex_Main
begin

section \<open>JavaScript numbers\<close>

text \<open>
  The widget computes with JavaScript numbers. A finite number is modelled as an exact
  rational (the rounding of IEEE-754 doubles and the sign of zero are abstracted away:
  every zero is \<open>+0\<close>); the three non-finite values are modelled as they are, so that a
  division by zero is \<open>Infinity\<close>, \<open>-Infinity\<close> or \<open>NaN\<close> as in the language, and
  not the \<open>0\<close> of HOL's division.
\<close>

datatype jsnum = Fin rat | PInf | NInf | NaN

fun js_neg :: "jsnum \<Rightarrow> jsnum" where
  "js_neg (Fin a) = Fin (- a)"
| "js_neg PInf = NInf"
| "js_neg NInf = PInf"
| "js_neg NaN = NaN"

fun js_add :: "jsnum \<Rightarrow> jsnum \<Rightarrow> jsnum" where
  "js_add (Fin a) (Fin b) = Fin (a + b)"
| "js_add (Fin a) PInf = PInf"
| "js_add (Fin a) NInf = NInf"
| "js_add PInf (Fin b) = PInf"
| "js_add PInf PInf = PInf"
| "js_add PInf NInf = NaN"
| "js_add NInf (Fin b) = NInf"
| "js_add NInf NInf = NInf"
| "js_add NInf PInf = NaN"
| "js_add NaN y = NaN"
| "js_add x NaN = NaN"

definition js_sub :: "jsnum \<Rightarrow> jsnum \<Rightarrow> jsnum" where
  "js_sub x y = js_add x (js_neg y)"

text \<open>An infinity of the sign of \<open>s\<close>; \<open>NaN\<close> when \<open>s\<close> is zero.\<close>

definition signed_inf :: "rat \<Rightarrow> jsnum" where
  "signed_inf s = (if s = 0 then NaN else if 0 < s then PInf else NInf)"

fun js_mul :: "jsnum \<Rightarrow> jsnum \<Rightarrow> jsnum" where
  "js_mul (Fin a) (Fin b) = Fin (a * b)"
| "js_mul (Fin a) PInf = signed_inf a"
| "js_mul (Fin a) NInf = signed_inf (- a)"
| "js_mul PInf (Fin b) = signed_inf b"
| "js_mul NInf (Fin b) = signed_inf (- b)"
| "js_mul PInf PInf = PInf"
| "js_mul PInf NInf = NInf"
| "js_mul NInf PInf = NInf"
| "js_mul NInf NInf = PInf"
| "js_mul NaN y = NaN"
| "js_mul x NaN = NaN"

fun js_div :: "jsnum \<Rightarrow> jsnum \<Rightarrow> jsnum" where
  "js_div (Fin a) (Fin b) = (if b = 0 then signed_inf a else Fin (a / b))"
| "js_div (Fin a) PInf = Fin 0"
| "js_div (Fin a) NInf = Fin 0"
| "js_div PInf (Fin b) = (if 0 \<le> b then PInf else NInf)"
| "js_div NInf (Fin b) = (if 0 \<le> b then NInf else PInf)"
| "js_div PInf PInf = NaN"
| "js_div PInf NInf = NaN"
| "js_div NInf PInf = NaN"
| "js_div NInf NInf = NaN"
| "js_div NaN y = NaN"
| "js_div x NaN = NaN"

text \<open>\<open>Math.round\<close>: the nearest integer, a tie going up (towards \<open>+Infinity\<close>).\<close>

fun Math_round :: "jsnum \<Rightarrow> jsnum" where
  "Math_round (Fin a) = Fin (of_int \<lfloor>a + 1 / 2\<rfloor>)"
| "Math_round PInf = PInf"
| "Math_round NInf = NInf"
| "Math_round NaN = NaN"

text \<open>Truthiness of a number: \<open>0\<close> and \<open>NaN\<close> are falsy.\<close>

fun truthy :: "jsnum \<Rightarrow> bool" where
  "truthy (Fin a) = (a \<noteq> 0)"
| "truthy PInf = True"
| "truthy NInf = True"
| "truthy NaN = False"

text \<open>\<open>x !== y\<close> on numbers: \<open>NaN\<close> is different from everything, itself included.\<close>

definition strict_neq :: "jsnum \<Rightarrow> jsnum \<Rightarrow> bool" where
  "strict_neq x y = (x = NaN \<or> y = NaN \<or> x \<noteq> y)"

text \<open>
  \<open>v || d\<close> where \<open>v\<close> is a property that holds a number or is \<open>undefined\<close>
  (\<open>None\<close>): \<open>undefined\<close> is falsy.
\<close>

fun js_or :: "jsnum option \<Rightarrow> jsnum \<Rightarrow> jsnum" where
  "js_or None d = d"
| "js_or (Some v) d = (if truthy v then v else d)"

section \<open>The widget and its container\<close>

datatype error = TypeError

text \<open>
  One entry of \<open>options.responsive\<close>: an object whose properties \<open>itemsToShow\<close> and
  \<open>itemsToScroll\<close> are numbers or absent (\<open>undefined\<close>).
\<close>

record override =
  ov_itemsToShow :: "jsnum option"
  ov_itemsToScroll :: "jsnum option"

text \<open>
  \<open>options.responsive\<close> is \<open>null\<close> (\<open>None\<close>) or an object keyed by minimum widths.
  The object is an association list of its own properties; a property name is the
  canonical decimal form of an integer (\<open>768\<close> or \<open>'768'\<close>), so
  \<open>Object.keys(...).map(Number)\<close> is the list of the keys and \<open>responsive[k]\<close> is
  \<open>map_of\<close>. The keys of an object are distinct. An object with a property name that
  is not canonical (\<open>'1e3'\<close>, \<open>'0768'\<close>), for which \<open>responsive[Number(name)]\<close> is
  \<open>undefined\<close> unless the canonical name is a property too, is outside this type.
\<close>

type_synonym breakpoints = "(int \<times> override) list"

record options =
  itemsToShow :: jsnum
  itemsToScroll :: jsnum
  snapDuration :: jsnum
  gap :: jsnum
  navigation :: bool
  dots :: bool
  responsive :: "breakpoints option"

record breakpoint_state =
  bp_itemsToShow :: jsnum
  bp_itemsToScroll :: jsnum

text \<open>The fields of a \<open>SnapScroll\<close> instance that the layout and drag code uses.\<close>

record widget =
  options :: options
  currentBreakpoint :: "breakpoint_state option"
  isDragging :: bool
  startX :: jsnum
  scrollLeft :: jsnum

text \<open>
  What a method reads from \<open>this.container\<close>: the DOM is read as a snapshot, and what
  the method writes to it is returned as a list of effects.
\<close>

record container =
  offsetWidth :: int
  container_scrollLeft :: jsnum
  style_scrollBehavior :: string

datatype effect =
    ScrollBy jsnum string
  | ScrollTo jsnum string
  | SetScrollLeft jsnum
  | SetScrollBehavior string
  | SetCursor string
  | SetItemWidth jsnum
  | PreventDefault

section \<open>Breakpoint resolution\<close>

text \<open>
  \<open>getItemsToShow\<close>: the keys sorted in descending order, the first one that the
  container width reaches wins and the loop breaks. The loop state is
  \<open>(activeBreakpoint, itemsToShow)\<close>.
\<close>

fun getItemsToShow_loop ::
  "breakpoints \<Rightarrow> int \<Rightarrow> int list \<Rightarrow> int option \<times> jsnum \<Rightarrow> error + (int option \<times> jsnum)" where
  "getItemsToShow_loop R containerWidth [] (activeBreakpoint, its) = Inr (activeBreakpoint, its)"
| "getItemsToShow_loop R containerWidth (breakpoint # rest) (activeBreakpoint, its) =
     (if containerWidth \<ge> breakpoint then
        (case map_of R breakpoint of
           None \<Rightarrow> Inl TypeError
         | Some config \<Rightarrow> Inr (Some breakpoint, js_or (ov_itemsToShow config) its))
      else getItemsToShow_loop R containerWidth rest (activeBreakpoint, its))"

definition getItemsToShow_state :: "widget \<Rightarrow> container \<Rightarrow> error + (int option \<times> jsnum)" where
  "getItemsToShow_state W C =
     (case responsive (options W) of
        None \<Rightarrow> Inr (None, itemsToShow (options W))
      | Some R \<Rightarrow>
          (let containerWidth = offsetWidth C;
               sortedBreakpoints = rev (sort (map fst R))
           in getItemsToShow_loop R containerWidth sortedBreakpoints
                (None, itemsToShow (options W))))"

definition getItemsToShow :: "widget \<Rightarrow> container \<Rightarrow> error + jsnum" where
  "getItemsToShow W C =
     (case getItemsToShow_state W C of
        Inl e \<Rightarrow> Inl e
      | Inr (activeBreakpoint, its) \<Rightarrow> Inr its)"

text \<open>
  \<open>getItemsToScroll\<close>: the keys sorted in ascending order, the last one that the
  container width reaches before a key exceeds it; the override is read afterwards,
  with a test against \<open>undefined\<close>.
\<close>

fun getItemsToScroll_loop :: "int \<Rightarrow> int list \<Rightarrow> int option \<Rightarrow> int option" where
  "getItemsToScroll_loop containerWidth [] activeBreakpoint = activeBreakpoint"
| "getItemsToScroll_loop containerWidth (breakpoint # rest) activeBreakpoint =
     (if containerWidth \<ge> breakpoint
      then getItemsToScroll_loop containerWidth rest (Some breakpoint)
      else activeBreakpoint)"

definition getItemsToScroll :: "widget \<Rightarrow> container \<Rightarrow> error + jsnum" where
  "getItemsToScroll W C =
     (case responsive (options W) of
        None \<Rightarrow> Inr (itemsToScroll (options W))
      | Some R \<Rightarrow>
          (let containerWidth = offsetWidth C;
               sortedBreakpoints = sort (map fst R)
           in case getItemsToScroll_loop containerWidth sortedBreakpoints None of
                None \<Rightarrow> Inr (itemsToScroll (options W))
              | Some activeBreakpoint \<Rightarrow>
                  (case map_of R activeBreakpoint of
                     None \<Rightarrow> Inl TypeError
                   | Some config \<Rightarrow>
                       (case ov_itemsToScroll config of
                          Some v \<Rightarrow> Inr v
                        | None \<Rightarrow> Inr (itemsToScroll (options W))))))"

text \<open>
  The earlier \<open>getItemsToScroll\<close>, which the source keeps in a comment (lines 235 to
  262): the descending first-match loop of \<open>getItemsToShow\<close>, reading
  \<open>config.itemsToScroll || itemsToScroll\<close>. The loop state is
  \<open>(activeBreakpoint, itemsToScroll)\<close>.
\<close>

fun getItemsToScroll_descending_loop ::
  "breakpoints \<Rightarrow> int \<Rightarrow> int list \<Rightarrow> int option \<times> jsnum \<Rightarrow> error + (int option \<times> jsnum)" where
  "getItemsToScroll_descending_loop R containerWidth [] (activeBreakpoint, its) =
     Inr (activeBreakpoint, its)"
| "getItemsToScroll_descending_loop R containerWidth (breakpoint # rest) (activeBreakpoint, its) =
     (if containerWidth \<ge> breakpoint then
        (case map_of R breakpoint of
           None \<Rightarrow> Inl TypeError
         | Some config \<Rightarrow> Inr (Some breakpoint, js_or (ov_itemsToScroll config) its))
      else getItemsToScroll_descending_loop R containerWidth rest (activeBreakpoint, its))"

definition getItemsToScroll_descending :: "widget \<Rightarrow> container \<Rightarrow> error + jsnum" where
  "getItemsToScroll_descending W C =
     (case responsive (options W) of
        None \<Rightarrow> Inr (itemsToScroll (options W))
      | Some R \<Rightarrow>
          (let containerWidth = offsetWidth C;
               sortedBreakpoints = rev (sort (map fst R))
           in case getItemsToScroll_descending_loop R containerWidth sortedBreakpoints
                     (None, itemsToScroll (options W)) of
                Inl e \<Rightarrow> Inl e
              | Inr (activeBreakpoint, its) \<Rightarrow> Inr its))"

section \<open>Layout\<close>

definition getItemWidth :: "widget \<Rightarrow> container \<Rightarrow> error + jsnum" where
  "getItemWidth W C =
     (case getItemsToShow W C of
        Inl e \<Rightarrow> Inl e
      | Inr n \<Rightarrow> Inr (js_sub (js_div (Fin (of_int (offsetWidth C))) n) (gap (options W))))"

section \<open>Navigation\<close>

text \<open>\<open>scrollTo(index)\<close>: an animated scroll to the start of the group \<open>index\<close>.\<close>

definition scrollTo :: "widget \<Rightarrow> container \<Rightarrow> jsnum \<Rightarrow> error + effect list" where
  "scrollTo W C index =
     (case getItemWidth W C of
        Inl e \<Rightarrow> Inl e
      | Inr w \<Rightarrow>
          (let itemWidth = js_add w (gap (options W)) in
           case getItemsToShow W C of
             Inl e \<Rightarrow> Inl e
           | Inr n \<Rightarrow>
               (let scrollAmount = js_mul (js_mul itemWidth n) index
                in Inr [ScrollTo scrollAmount ''smooth''])))"

text \<open>
  \<open>prev()\<close> and \<open>next()\<close> (here \<open>next'\<close>): the local \<open>scrollAmount\<close>, and the
  relative scroll that is requested with it.
\<close>

definition scrollAmount :: "widget \<Rightarrow> container \<Rightarrow> error + jsnum" where
  "scrollAmount W C =
     (case getItemWidth W C of
        Inl e \<Rightarrow> Inl e
      | Inr w \<Rightarrow>
          (let itemWidth = js_add w (gap (options W)) in
           case getItemsToScroll W C of
             Inl e \<Rightarrow> Inl e
           | Inr n \<Rightarrow> Inr (js_mul itemWidth n)))"

definition prev :: "widget \<Rightarrow> container \<Rightarrow> error + effect list" where
  "prev W C =
     (case scrollAmount W C of
        Inl e \<Rightarrow> Inl e
      | Inr a \<Rightarrow> Inr [ScrollBy (js_neg a) ''smooth''])"

definition next' :: "widget \<Rightarrow> container \<Rightarrow> error + effect list" where
  "next' W C =
     (case scrollAmount W C of
        Inl e \<Rightarrow> Inl e
      | Inr a \<Rightarrow> Inr [ScrollBy a ''smooth''])"

text \<open>\<open>snapToNearest()\<close>: the local \<open>activeIndex\<close>, then \<open>scrollTo(activeIndex)\<close>.\<close>

definition snapToNearest_activeIndex :: "widget \<Rightarrow> container \<Rightarrow> error + jsnum" where
  "snapToNearest_activeIndex W C =
     (case getItemWidth W C of
        Inl e \<Rightarrow> Inl e
      | Inr itemWidth \<Rightarrow>
          (let scrollPos = container_scrollLeft C
           in Inr (Math_round (js_div scrollPos (js_add itemWidth (gap (options W)))))))"

definition snapToNearest :: "widget \<Rightarrow> container \<Rightarrow> error + effect list" where
  "snapToNearest W C =
     (case snapToNearest_activeIndex W C of
        Inl e \<Rightarrow> Inl e
      | Inr activeIndex \<Rightarrow> scrollTo W C activeIndex)"

text \<open>
  The index that \<open>updateActiveDot()\<close> computes for the pagination dots, once it is
  past its early return (the dots container exists): the scroll offset in units of a
  whole group.
\<close>

definition updateActiveDot_activeIndex :: "widget \<Rightarrow> container \<Rightarrow> error + jsnum" where
  "updateActiveDot_activeIndex W C =
     (case getItemWidth W C of
        Inl e \<Rightarrow> Inl e
      | Inr w \<Rightarrow>
          (let itemWidth = js_add w (gap (options W)) in
           case getItemsToShow W C of
             Inl e \<Rightarrow> Inl e
           | Inr n \<Rightarrow> Inr (Math_round (js_div (container_scrollLeft C) (js_mul itemWidth n)))))"

section \<open>Dragging\<close>

text \<open>
  A mouse event has \<open>pageX\<close> and no \<open>touches\<close>; a touch event has \<open>touches\<close> (here
  the \<open>pageX\<close> of each touch) and no \<open>pageX\<close>.
\<close>

record event =
  pageX :: "jsnum option"
  touches :: "jsnum list option"

text \<open>\<open>e.pageX || e.touches[0].pageX\<close>; reading a property of \<open>undefined\<close> throws.\<close>

definition event_x :: "event \<Rightarrow> error + jsnum" where
  "event_x e =
     (case pageX e of
        Some x \<Rightarrow>
          (if truthy x then Inr x
           else (case touches e of
                   None \<Rightarrow> Inl TypeError
                 | Some [] \<Rightarrow> Inl TypeError
                 | Some (t # ts) \<Rightarrow> Inr t))
      | None \<Rightarrow>
          (case touches e of
             None \<Rightarrow> Inl TypeError
           | Some [] \<Rightarrow> Inl TypeError
           | Some (t # ts) \<Rightarrow> Inr t))"

text \<open>
  A handler returns the widget and the effects on the container; when it throws, the
  assignments and effects made before the throw stay.
\<close>

type_synonym outcome = "(error \<times> widget \<times> effect list) + (widget \<times> effect list)"

definition startDrag :: "event \<Rightarrow> container \<Rightarrow> widget \<Rightarrow> outcome" where
  "startDrag e C W =
     (let W1 = W\<lparr>isDragging := True\<rparr> in
      case event_x e of
        Inl err \<Rightarrow> Inl (err, W1, [])
      | Inr x \<Rightarrow>
          Inr (W1\<lparr>startX := x, scrollLeft := container_scrollLeft C\<rparr>,
               [SetScrollBehavior ''auto'', SetCursor ''grabbing'']))"

definition drag :: "event \<Rightarrow> container \<Rightarrow> widget \<Rightarrow> outcome" where
  "drag e C W =
     (if \<not> isDragging W then Inr (W, [])
      else
        (case event_x e of
           Inl err \<Rightarrow> Inl (err, W, [PreventDefault])
         | Inr x \<Rightarrow>
             (let walk = js_mul (js_sub x (startX W)) (Fin 2)
              in Inr (W, [PreventDefault, SetScrollLeft (js_sub (scrollLeft W) walk)]))))"

definition endDrag :: "container \<Rightarrow> widget \<Rightarrow> outcome" where
  "endDrag C W =
     (let W1 = W\<lparr>isDragging := False\<rparr>;
          fx = [SetScrollBehavior ''smooth'', SetCursor ''grab'']
      in case snapToNearest W1 C of
           Inl err \<Rightarrow> Inl (err, W1, fx)
         | Inr fx' \<Rightarrow> Inr (W1, fx @ fx'))"

section \<open>Options, construction and update\<close>

text \<open>
  An options argument: each property is present or absent. \<open>spread o p\<close> is
  \<open>{ ...o, ...p }\<close>.
\<close>

record options_patch =
  p_itemsToShow :: "jsnum option"
  p_itemsToScroll :: "jsnum option"
  p_snapDuration :: "jsnum option"
  p_gap :: "jsnum option"
  p_navigation :: "bool option"
  p_dots :: "bool option"
  p_responsive :: "breakpoints option option"

definition spread :: "options \<Rightarrow> options_patch \<Rightarrow> options" where
  "spread opts p =
     \<lparr>itemsToShow = (case p_itemsToShow p of Some v \<Rightarrow> v | None \<Rightarrow> itemsToShow opts),
      itemsToScroll = (case p_itemsToScroll p of Some v \<Rightarrow> v | None \<Rightarrow> itemsToScroll opts),
      snapDuration = (case p_snapDuration p of Some v \<Rightarrow> v | None \<Rightarrow> snapDuration opts),
      gap = (case p_gap p of Some v \<Rightarrow> v | None \<Rightarrow> gap opts),
      navigation = (case p_navigation p of Some v \<Rightarrow> v | None \<Rightarrow> navigation opts),
      dots = (case p_dots p of Some v \<Rightarrow> v | None \<Rightarrow> dots opts),
      responsive = (case p_responsive p of Some v \<Rightarrow> v | None \<Rightarrow> responsive opts)\<rparr>"

definition defaults :: options where
  "defaults =
     \<lparr>itemsToShow = Fin 1, itemsToScroll = Fin 1, snapDuration = Fin 300, gap = Fin 20,
      navigation = True, dots = False, responsive = None\<rparr>"

text \<open>The fields as the constructor sets them, before it calls \<open>init()\<close>.\<close>

definition constructor_fields :: "options_patch \<Rightarrow> widget" where
  "constructor_fields opts =
     \<lparr>options = spread defaults opts, currentBreakpoint = None, isDragging = False,
      startX = Fin 0, scrollLeft = Fin 0\<rparr>"

text \<open>
  \<open>update(config)\<close> for a widget without pagination dots (\<open>this.dotsContainer\<close> is
  undefined, as it is unless the widget was built with \<open>dots: true\<close>). The effect
  \<open>SetItemWidth w\<close> is the assignment of \<open>w\<close> pixels to the width of every item.
\<close>

definition update :: "options_patch option \<Rightarrow> container \<Rightarrow> widget \<Rightarrow> outcome" where
  "update config C W =
     (let W1 = (case config of
                  None \<Rightarrow> W
                | Some c \<Rightarrow> W\<lparr>options := spread (options W) c\<rparr>)
      in case getItemsToShow W1 C of
           Inl err \<Rightarrow> Inl (err, W1, [])
         | Inr n \<Rightarrow>
             (case getItemWidth W1 C of
                Inl err \<Rightarrow> Inl (err, W1, [])
              | Inr itemWidth \<Rightarrow> Inr (W1, [SetItemWidth itemWidth])))"

section \<open>Resize\<close>

text \<open>
  \<open>handleResize()\<close>. \<open>this.currentBreakpoint?.itemsToShow\<close> is \<open>undefined\<close> while
  \<open>currentBreakpoint\<close> is \<open>null\<close>. The logging calls have no effect on the widget or
  the container, but the argument of \<open>console.log(this.getItemsToScroll())\<close> is
  evaluated.
\<close>

definition handleResize :: "container \<Rightarrow> widget \<Rightarrow> outcome" where
  "handleResize C W =
     (let prevItemsToShow =
            js_or (map_option bp_itemsToShow (currentBreakpoint W)) (itemsToShow (options W));
          prevItemsToScroll =
            js_or (map_option bp_itemsToScroll (currentBreakpoint W)) (itemsToScroll (options W))
      in case getItemsToShow W C of
           Inl err \<Rightarrow> Inl (err, W, [])
         | Inr currentItemsToShow \<Rightarrow>
             (case getItemsToScroll W C of
                Inl err \<Rightarrow> Inl (err, W, [])
              | Inr currentItemsToScroll \<Rightarrow>
                  if strict_neq currentItemsToShow prevItemsToShow
                     \<or> strict_neq currentItemsToScroll prevItemsToScroll
                  then
                    (let W1 = W\<lparr>currentBreakpoint :=
                                  Some \<lparr>bp_itemsToShow = currentItemsToShow,
                                        bp_itemsToScroll = currentItemsToScroll\<rparr>\<rparr>
                     in case getItemsToScroll W1 C of
                          Inl err \<Rightarrow> Inl (err, W1, [])
                        | Inr logged \<Rightarrow>
                            (case update None C W1 of
                               Inl (err, W2, fx) \<Rightarrow> Inl (err, W2, fx)
                             | Inr (W2, fx) \<Rightarrow>
                                 (case getItemWidth W2 C of
                                    Inl err \<Rightarrow> Inl (err, W2, fx)
                                  | Inr w \<Rightarrow>
                                      (let itemWidth = js_add w (gap (options W2));
                                           currentIndex =
                                             Math_round (js_div (container_scrollLeft C)
                                               (js_mul itemWidth prevItemsToShow));
                                           newScrollPos =
                                             js_mul currentIndex (js_mul itemWidth currentItemsToShow);
                                           originalBehavior = style_scrollBehavior C
                                       in Inr (W2, fx @ [SetScrollBehavior ''auto'',
                                                         SetScrollLeft newScrollPos,
                                                         SetScrollBehavior originalBehavior])))))
                  else Inr (W, [])))"

section \<open>The resolution rule of the specification\<close>

text \<open>
  The largest key of the breakpoint map that is at most the container width, and the
  override stored under it.
\<close>

definition largest_key :: "breakpoints \<Rightarrow> int \<Rightarrow> int option" where
  "largest_key R w =
     (let ms = filter (\<lambda>k. k \<le> w) (map fst R)
      in if ms = [] then None else Some (Max (set ms)))"

definition active_override :: "breakpoints \<Rightarrow> int \<Rightarrow> override option" where
  "active_override R w =
     (case largest_key R w of
        None \<Rightarrow> None
      | Some k \<Rightarrow> map_of R k)"

text \<open>
  The specification's \<open>resolve\<close>, in its words: the override of the largest key at most
  the width is merged onto the base pair \<open>(itemsToShow, itemsToScroll)\<close>, a field that
  the override does not have keeping the base value; the base pair when no key matches.
\<close>

definition spec_resolve :: "breakpoints \<Rightarrow> jsnum \<times> jsnum \<Rightarrow> int \<Rightarrow> jsnum \<times> jsnum" where
  "spec_resolve R base w =
     (case active_override R w of
        None \<Rightarrow> base
      | Some ov \<Rightarrow>
          ((case ov_itemsToShow ov of Some v \<Rightarrow> v | None \<Rightarrow> fst base),
           (case ov_itemsToScroll ov of Some v \<Rightarrow> v | None \<Rightarrow> snd base)))"

text \<open>
  What the two resolvers of the code compute, stated with \<open>active_override\<close>:
  \<open>getItemsToShow\<close> reads the override with \<open>||\<close>, \<open>getItemsToScroll\<close> with a test
  against \<open>undefined\<close>.
\<close>

definition resolved_itemsToShow :: "widget \<Rightarrow> container \<Rightarrow> jsnum" where
  "resolved_itemsToShow W C =
     (case responsive (options W) of
        None \<Rightarrow> itemsToShow (options W)
      | Some R \<Rightarrow>
          (case active_override R (offsetWidth C) of
             None \<Rightarrow> itemsToShow (options W)
           | Some ov \<Rightarrow> js_or (ov_itemsToShow ov) (itemsToShow (options W))))"

definition resolved_itemsToScroll :: "widget \<Rightarrow> container \<Rightarrow> jsnum" where
  "resolved_itemsToScroll W C =
     (case responsive (options W) of
        None \<Rightarrow> itemsToScroll (options W)
      | Some R \<Rightarrow>
          snd (spec_resolve R (itemsToShow (options W), itemsToScroll (options W))
                 (offsetWidth C)))"

text \<open>
  The layout formulas of the specification, in its words, on finite numbers:
  \<open>offsetForPage\<close>, \<open>pageForOffset\<close> (rounding half away from zero) and \<open>reconcile\<close>.
\<close>

definition round_half_away :: "rat \<Rightarrow> int" where
  "round_half_away a = (if 0 \<le> a then \<lfloor>a + 1 / 2\<rfloor> else \<lceil>a - 1 / 2\<rceil>)"

definition spec_offsetForPage :: "rat \<Rightarrow> rat \<Rightarrow> rat \<Rightarrow> rat \<Rightarrow> rat" where
  "spec_offsetForPage pageIndex itemWidth g n = pageIndex * n * (itemWidth + g)"

definition spec_pageForOffset :: "rat \<Rightarrow> rat \<Rightarrow> rat \<Rightarrow> rat \<Rightarrow> int" where
  "spec_pageForOffset scrollOffset itemWidth g n =
     round_half_away (scrollOffset / ((itemWidth + g) * n))"

definition spec_reconcile :: "rat \<Rightarrow> rat \<Rightarrow> rat \<Rightarrow> rat \<Rightarrow> rat \<Rightarrow> rat \<Rightarrow> rat \<Rightarrow> rat" where
  "spec_reconcile oldOffset oldItemWidth oldGap oldItemsToShow newItemWidth newGap newItemsToShow =
     (let currentPageIndex =
            round_half_away (oldOffset / ((oldItemWidth + oldGap) * oldItemsToShow))
      in of_int currentPageIndex * ((newItemWidth + newGap) * newItemsToShow))"

section \<open>Example configurations\<close>

definition no_options :: options_patch where
  "no_options =
     \<lparr>p_itemsToShow = None, p_itemsToScroll = None, p_snapDuration = None, p_gap = None,
      p_navigation = None, p_dots = None, p_responsive = None\<rparr>"

definition container_at :: "int \<Rightarrow> jsnum \<Rightarrow> container" where
  "container_at w s =
     \<lparr>offsetWidth = w, container_scrollLeft = s, style_scrollBehavior = ''smooth''\<rparr>"

text \<open>
  \<open>{itemsToShow: 3, itemsToScroll: 2, responsive: {0: {itemsToShow: 1, itemsToScroll: 1},
  767: {itemsToShow: 2}, 1024: {itemsToShow: 3, itemsToScroll: 2}}}\<close>
\<close>

definition scenario_breakpoints :: breakpoints where
  "scenario_breakpoints =
     [(0, \<lparr>ov_itemsToShow = Some (Fin 1), ov_itemsToScroll = Some (Fin 1)\<rparr>),
      (767, \<lparr>ov_itemsToShow = Some (Fin 2), ov_itemsToScroll = None\<rparr>),
      (1024, \<lparr>ov_itemsToShow = Some (Fin 3), ov_itemsToScroll = Some (Fin 2)\<rparr>)]"

definition scenario_widget :: widget where
  "scenario_widget =
     constructor_fields
       (no_options\<lparr>p_itemsToShow := Some (Fin 3), p_itemsToScroll := Some (Fin 2),
                    p_responsive := Some (Some scenario_breakpoints)\<rparr>)"

text \<open>
  \<open>{itemsToShow: 3, itemsToScroll: 2, responsive: {0: {itemsToShow: 0, itemsToScroll: 0}}}\<close>
\<close>

definition zero_breakpoints :: breakpoints where
  "zero_breakpoints = [(0, \<lparr>ov_itemsToShow = Some (Fin 0), ov_itemsToScroll = Some (Fin 0)\<rparr>)]"

definition zero_widget :: widget where
  "zero_widget =
     constructor_fields
       (no_options\<lparr>p_itemsToShow := Some (Fin 3), p_itemsToScroll := Some (Fin 2),
                    p_responsive := Some (Some zero_breakpoints)\<rparr>)"

text \<open>\<open>{itemsToShow: 2, itemsToScroll: 2}\<close> and \<open>{itemsToShow: 3}\<close>, no breakpoints.\<close>

definition two_up_widget :: widget where
  "two_up_widget =
     constructor_fields
       (no_options\<lparr>p_itemsToShow := Some (Fin 2), p_itemsToScroll := Some (Fin 2)\<rparr>)"

definition three_up_widget :: widget where
  "three_up_widget = constructor_fields (no_options\<lparr>p_itemsToShow := Some (Fin 3)\<rparr>)"

definition four_up_widget :: widget where
  "four_up_widget = constructor_fields (no_options\<lparr>p_itemsToShow := Some (Fin 4)\<rparr>)"

text \<open>A mouse event at the page coordinate \<open>x\<close>.\<close>

definition mouse_event :: "jsnum \<Rightarrow> event" where
  "mouse_event x = \<lparr>pageX = Some x, touches = None\<rparr>"

text \<open>
  The two-item widget after a pointer-down at \<open>x = 10\<close> on a container scrolled to 0.
\<close>

definition dragging_widget :: widget where
  "dragging_widget = two_up_widget\<lparr>isDragging := True, startX := Fin 10, scrollLeft := Fin 0\<rparr>"

text \<open>\<open>{itemsToShow: 0, itemsToScroll: -1}\<close>.\<close>

definition invalid_options :: options_patch where
  "invalid_options =
     no_options\<lparr>p_itemsToShow := Some (Fin 0), p_itemsToScroll := Some (Fin (- 1))\<rparr>"

text \<open>\<open>{itemsToShow: 0, itemsToScroll: -1, responsive: {767: {itemsToShow: 2}}}\<close>.\<close>

definition invalid_widget :: widget where
  "invalid_widget =
     constructor_fields
       (invalid_options\<lparr>p_responsive :=
          Some (Some [(767, \<lparr>ov_itemsToShow = Some (Fin 2), ov_itemsToScroll = None\<rparr>)])\<rparr>)"

section \<open>The two selection loops\<close>

lemma getItemsToScroll_loop_sorted:
  "sorted ks \<Longrightarrow>
   getItemsToScroll_loop w ks acc =
     (if filter (\<lambda>k. k \<le> w) ks = [] then acc
      else Some (Max (set (filter (\<lambda>k. k \<le> w) ks))))"
proof (induction ks arbitrary: acc)
  case Nil
  then show ?case by simp
next
  case (Cons b bs)
  from Cons.prems have sb: "sorted bs" and le: "\<forall>x\<in>set bs. b \<le> x" by auto
  let ?ms = "filter (\<lambda>k. k \<le> w) bs"
  show ?case
  proof (cases "b \<le> w")
    case True
    show ?thesis
    proof (cases "?ms = []")
      case e: True
      with True Cons.IH[OF sb] show ?thesis by simp
    next
      case ne: False
      have "Max (insert b (set ?ms)) = Max (set ?ms)"
      proof -
        from ne obtain x where x: "x \<in> set ?ms"
          by (cases ?ms) auto
        then have "b \<le> x" using le by auto
        moreover have "x \<le> Max (set ?ms)" using x by (intro Max_ge) auto
        ultimately have b: "b \<le> Max (set ?ms)" by linarith
        have "set ?ms \<noteq> {}" using ne by (metis set_empty)
        then have "Max (insert b (set ?ms)) = max b (Max (set ?ms))"
          by (rule Max_insert[OF finite_set])
        with b show ?thesis by (simp add: max_def del: set_filter)
      qed
      with True ne Cons.IH[OF sb] show ?thesis by simp
    qed
  next
    case False
    then have "?ms = []" using le by (auto simp: filter_empty_conv)
    with False show ?thesis by simp
  qed
qed

lemma getItemsToShow_loop_sorted:
  "sorted (rev ks) \<Longrightarrow>
   getItemsToShow_loop R w ks (ab, its) =
     (if filter (\<lambda>k. k \<le> w) ks = [] then Inr (ab, its)
      else (case map_of R (Max (set (filter (\<lambda>k. k \<le> w) ks))) of
              None \<Rightarrow> Inl TypeError
            | Some config \<Rightarrow>
                Inr (Some (Max (set (filter (\<lambda>k. k \<le> w) ks))),
                     js_or (ov_itemsToShow config) its)))"
proof (induction ks)
  case Nil
  then show ?case by simp
next
  case (Cons b bs)
  from Cons.prems have sb: "sorted (rev bs)" and ge: "\<forall>x\<in>set bs. x \<le> b"
    by (auto simp: sorted_append)
  show ?case
  proof (cases "b \<le> w")
    case True
    have "Max (insert b (set (filter (\<lambda>k. k \<le> w) bs))) = b"
      using ge by (intro Max_eqI) auto
    with True show ?thesis by (simp cong: option.case_cong)
  next
    case False
    with Cons.IH[OF sb] show ?thesis by (simp cong: option.case_cong)
  qed
qed

lemma largest_key_mem:
  assumes "largest_key R w = Some k"
  shows "k \<in> fst ` set R \<and> k \<le> w"
proof -
  let ?ms = "filter (\<lambda>k. k \<le> w) (map fst R)"
  from assms have ne: "?ms \<noteq> []" and k: "k = Max (set ?ms)"
    by (auto simp: largest_key_def Let_def split: if_splits)
  from ne have "set ?ms \<noteq> {}" by (metis set_empty)
  then have "Max (set ?ms) \<in> set ?ms" by (intro Max_in) simp_all
  with k show ?thesis by auto
qed

lemma largest_key_override:
  assumes "largest_key R w = Some k"
  shows "\<exists>config. map_of R k = Some config"
proof -
  from largest_key_mem[OF assms] have "k \<in> dom (map_of R)"
    by (simp add: dom_map_of_conv_image_fst)
  then show ?thesis by auto
qed

lemma getItemsToScroll_loop_largest:
  "getItemsToScroll_loop w (sort (map fst R)) None = largest_key R w"
proof -
  have "set (filter (\<lambda>k. k \<le> w) (sort (map fst R))) = set (filter (\<lambda>k. k \<le> w) (map fst R))"
    by simp
  moreover have "(filter (\<lambda>k. k \<le> w) (sort (map fst R)) = []) =
      (filter (\<lambda>k. k \<le> w) (map fst R) = [])"
    by (simp add: filter_empty_conv)
  ultimately show ?thesis
    by (simp add: getItemsToScroll_loop_sorted largest_key_def Let_def)
qed

lemma getItemsToShow_loop_largest:
  "getItemsToShow_loop R w (rev (sort (map fst R))) (None, base) =
     Inr (largest_key R w,
          (case active_override R w of
             None \<Rightarrow> base
           | Some ov \<Rightarrow> js_or (ov_itemsToShow ov) base))"
proof (cases "largest_key R w")
  case None
  then have "filter (\<lambda>k. k \<le> w) (rev (sort (map fst R))) = []"
    by (auto simp: largest_key_def Let_def filter_empty_conv split: if_splits)
  with None show ?thesis
    by (simp add: getItemsToShow_loop_sorted active_override_def)
next
  case (Some k)
  let ?ms = "filter (\<lambda>k. k \<le> w) (map fst R)"
  from Some have ne: "?ms \<noteq> []" and k: "k = Max (set ?ms)"
    by (auto simp: largest_key_def Let_def split: if_splits)
  from ne have ne': "filter (\<lambda>k. k \<le> w) (rev (sort (map fst R))) \<noteq> []"
    by (auto simp: filter_empty_conv)
  have set_eq: "set (filter (\<lambda>k. k \<le> w) (rev (sort (map fst R)))) = set ?ms"
    by auto
  from largest_key_override[OF Some] obtain config where c: "map_of R k = Some config" ..
  have "getItemsToShow_loop R w (rev (sort (map fst R))) (None, base) =
      Inr (Some k, js_or (ov_itemsToShow config) base)"
    using ne' c k by (simp add: getItemsToShow_loop_sorted set_eq del: set_filter)
  with Some c show ?thesis by (simp add: active_override_def)
qed

lemma getItemsToShow_state_resolved:
  "getItemsToShow_state W C =
     Inr ((case responsive (options W) of
             None \<Rightarrow> None
           | Some R \<Rightarrow> largest_key R (offsetWidth C)),
          resolved_itemsToShow W C)"
  by (simp add: getItemsToShow_state_def resolved_itemsToShow_def getItemsToShow_loop_largest
      split: option.splits)

lemma getItemsToShow_resolved: "getItemsToShow W C = Inr (resolved_itemsToShow W C)"
  by (simp add: getItemsToShow_def getItemsToShow_state_resolved)

lemma getItemsToScroll_resolved: "getItemsToScroll W C = Inr (resolved_itemsToScroll W C)"
proof (cases "responsive (options W)")
  case None
  then show ?thesis by (simp add: getItemsToScroll_def resolved_itemsToScroll_def)
next
  case (Some R)
  show ?thesis
  proof (cases "largest_key R (offsetWidth C)")
    case None
    with Some show ?thesis
      by (simp add: getItemsToScroll_def resolved_itemsToScroll_def spec_resolve_def
          active_override_def getItemsToScroll_loop_largest)
  next
    case k: (Some k)
    from largest_key_override[OF k] obtain config where "map_of R k = Some config" ..
    with Some k show ?thesis
      by (simp add: getItemsToScroll_def resolved_itemsToScroll_def spec_resolve_def
          active_override_def getItemsToScroll_loop_largest split: option.splits)
  qed
qed

lemma getItemsToScroll_descending_loop_sorted:
  "sorted (rev ks) \<Longrightarrow>
   getItemsToScroll_descending_loop R w ks (ab, its) =
     (if filter (\<lambda>k. k \<le> w) ks = [] then Inr (ab, its)
      else (case map_of R (Max (set (filter (\<lambda>k. k \<le> w) ks))) of
              None \<Rightarrow> Inl TypeError
            | Some config \<Rightarrow>
                Inr (Some (Max (set (filter (\<lambda>k. k \<le> w) ks))),
                     js_or (ov_itemsToScroll config) its)))"
proof (induction ks)
  case Nil
  then show ?case by simp
next
  case (Cons b bs)
  from Cons.prems have sb: "sorted (rev bs)" and ge: "\<forall>x\<in>set bs. x \<le> b"
    by (auto simp: sorted_append)
  show ?case
  proof (cases "b \<le> w")
    case True
    have "Max (insert b (set (filter (\<lambda>k. k \<le> w) bs))) = b"
      using ge by (intro Max_eqI) auto
    with True show ?thesis by (simp cong: option.case_cong)
  next
    case False
    with Cons.IH[OF sb] show ?thesis by (simp cong: option.case_cong)
  qed
qed

lemma getItemsToScroll_descending_loop_largest:
  "getItemsToScroll_descending_loop R w (rev (sort (map fst R))) (None, base) =
     Inr (largest_key R w,
          (case active_override R w of
             None \<Rightarrow> base
           | Some ov \<Rightarrow> js_or (ov_itemsToScroll ov) base))"
proof (cases "largest_key R w")
  case None
  then have "filter (\<lambda>k. k \<le> w) (rev (sort (map fst R))) = []"
    by (auto simp: largest_key_def Let_def filter_empty_conv split: if_splits)
  with None show ?thesis
    by (simp add: getItemsToScroll_descending_loop_sorted active_override_def)
next
  case (Some k)
  let ?ms = "filter (\<lambda>k. k \<le> w) (map fst R)"
  from Some have ne: "?ms \<noteq> []" and k: "k = Max (set ?ms)"
    by (auto simp: largest_key_def Let_def split: if_splits)
  from ne have ne': "filter (\<lambda>k. k \<le> w) (rev (sort (map fst R))) \<noteq> []"
    by (auto simp: filter_empty_conv)
  have set_eq: "set (filter (\<lambda>k. k \<le> w) (rev (sort (map fst R)))) = set ?ms"
    by auto
  from largest_key_override[OF Some] obtain config where c: "map_of R k = Some config" ..
  have "getItemsToScroll_descending_loop R w (rev (sort (map fst R))) (None, base) =
      Inr (Some k, js_or (ov_itemsToScroll config) base)"
    using ne' c k by (simp add: getItemsToScroll_descending_loop_sorted set_eq del: set_filter)
  with Some c show ?thesis by (simp add: active_override_def)
qed

lemma getItemsToScroll_descending_resolved:
  "getItemsToScroll_descending W C =
     Inr (case responsive (options W) of
            None \<Rightarrow> itemsToScroll (options W)
          | Some R \<Rightarrow>
              (case active_override R (offsetWidth C) of
                 None \<Rightarrow> itemsToScroll (options W)
               | Some ov \<Rightarrow> js_or (ov_itemsToScroll ov) (itemsToScroll (options W))))"
  by (simp add: getItemsToScroll_descending_def getItemsToScroll_descending_loop_largest
      split: option.splits)

lemma getItemsToScroll_override:
  "getItemsToScroll W C =
     Inr (case responsive (options W) of
            None \<Rightarrow> itemsToScroll (options W)
          | Some R \<Rightarrow>
              (case active_override R (offsetWidth C) of
                 None \<Rightarrow> itemsToScroll (options W)
               | Some ov \<Rightarrow>
                   (case ov_itemsToScroll ov of
                      Some v \<Rightarrow> v
                    | None \<Rightarrow> itemsToScroll (options W))))"
  by (simp add: getItemsToScroll_resolved resolved_itemsToScroll_def spec_resolve_def
      split: option.splits)

lemma largest_key_greatest:
  "largest_key R w = Some k \<longleftrightarrow>
     k \<in> fst ` set R \<and> k \<le> w \<and> (\<forall>k'\<in>fst ` set R. k' \<le> w \<longrightarrow> k' \<le> k)"
proof
  assume a: "largest_key R w = Some k"
  let ?ms = "filter (\<lambda>k. k \<le> w) (map fst R)"
  from a have k: "k = Max (set ?ms)"
    by (auto simp: largest_key_def Let_def split: if_splits)
  have "k' \<le> k" if "k' \<in> fst ` set R" "k' \<le> w" for k'
  proof -
    from that have "k' \<in> set ?ms" by auto
    then show ?thesis unfolding k by (intro Max_ge) simp_all
  qed
  with largest_key_mem[OF a] show
    "k \<in> fst ` set R \<and> k \<le> w \<and> (\<forall>k'\<in>fst ` set R. k' \<le> w \<longrightarrow> k' \<le> k)"
    by blast
next
  assume b: "k \<in> fst ` set R \<and> k \<le> w \<and> (\<forall>k'\<in>fst ` set R. k' \<le> w \<longrightarrow> k' \<le> k)"
  let ?ms = "filter (\<lambda>k. k \<le> w) (map fst R)"
  from b have mem: "k \<in> set ?ms" by auto
  then have ne: "?ms \<noteq> []" by (metis empty_iff set_empty)
  have "Max (set ?ms) = k"
  proof (rule Max_eqI)
    show "finite (set ?ms)" by (rule finite_set)
    show "y \<le> k" if "y \<in> set ?ms" for y using that b by auto
    show "k \<in> set ?ms" by (rule mem)
  qed
  with ne show "largest_key R w = Some k"
    by (simp add: largest_key_def Let_def del: set_filter)
qed

lemma largest_key_none:
  "largest_key R w = None \<longleftrightarrow> (\<forall>k\<in>fst ` set R. w < k)"
  by (auto simp: largest_key_def Let_def filter_empty_conv not_le)

section \<open>Claims about breakpoint resolution\<close>

text \<open>
  C1, as amended. For every breakpoint map, base configuration and container width,
  \<open>getItemsToShow\<close> and \<open>getItemsToScroll\<close> use the override of the single largest key
  that is at most the width (\<open>active_override\<close>), and no other breakpoint; with no such
  key, or with \<open>responsive\<close> null, they return the base value. For \<open>itemsToScroll\<close> the
  override's field is taken when it is present and the base value when it is absent.
  For \<open>itemsToShow\<close> the override's field is taken when it is present and truthy; the
  base value is returned when it is absent and also when it is \<open>0\<close> or \<open>NaN\<close>.
\<close>

theorem breakpoint_resolution:
  "getItemsToShow W C =
     Inr (case responsive (options W) of
            None \<Rightarrow> itemsToShow (options W)
          | Some R \<Rightarrow>
              (case active_override R (offsetWidth C) of
                 None \<Rightarrow> itemsToShow (options W)
               | Some ov \<Rightarrow> js_or (ov_itemsToShow ov) (itemsToShow (options W))))
   \<and> getItemsToScroll W C =
     Inr (case responsive (options W) of
            None \<Rightarrow> itemsToScroll (options W)
          | Some R \<Rightarrow>
              (case active_override R (offsetWidth C) of
                 None \<Rightarrow> itemsToScroll (options W)
               | Some ov \<Rightarrow>
                   (case ov_itemsToScroll ov of
                      Some v \<Rightarrow> v
                    | None \<Rightarrow> itemsToScroll (options W))))"
proof -
  have "resolved_itemsToScroll W C =
      (case responsive (options W) of
         None \<Rightarrow> itemsToScroll (options W)
       | Some R \<Rightarrow>
           (case active_override R (offsetWidth C) of
              None \<Rightarrow> itemsToScroll (options W)
            | Some ov \<Rightarrow>
                (case ov_itemsToScroll ov of
                   Some v \<Rightarrow> v
                 | None \<Rightarrow> itemsToScroll (options W))))"
    by (simp add: resolved_itemsToScroll_def spec_resolve_def split: option.splits)
  then show ?thesis
    using getItemsToShow_resolved[of W C] getItemsToScroll_resolved[of W C]
    by (simp add: resolved_itemsToShow_def)
qed

text \<open>
  The scenario of the specification: at width 800 the breakpoint 767 is active; its
  override has \<open>itemsToShow: 2\<close> and no \<open>itemsToScroll\<close>, so the result is \<open>(2, 2)\<close>.
\<close>

theorem breakpoint_resolution_witness:
  "getItemsToShow scenario_widget (container_at 800 (Fin 0)) = Inr (Fin 2)
   \<and> getItemsToScroll scenario_widget (container_at 800 (Fin 0)) = Inr (Fin 2)"
  using breakpoint_resolution[of scenario_widget "container_at 800 (Fin 0)"]
  by (simp add: scenario_widget_def constructor_fields_def spread_def defaults_def
      no_options_def container_at_def active_override_def largest_key_def
      scenario_breakpoints_def)

text \<open>
  C1 as it is stated fails where the winning override sets \<open>itemsToShow\<close> to \<open>0\<close>: merging
  that override onto the base gives \<open>0\<close>, and \<open>getItemsToShow\<close> returns the base value 3.
\<close>

theorem breakpoint_resolution_counterexample:
  "getItemsToShow zero_widget (container_at 800 (Fin 0)) = Inr (Fin 3)
   \<and> fst (spec_resolve zero_breakpoints (Fin 3, Fin 2) 800) = Fin 0"
  by (simp add: getItemsToShow_def getItemsToShow_state_def zero_widget_def
      constructor_fields_def spread_def defaults_def no_options_def container_at_def
      zero_breakpoints_def spec_resolve_def active_override_def largest_key_def)

text \<open>
  C9, as amended. On every breakpoint map and every width, the descending first-match
  loop (the one of \<open>getItemsToShow\<close>, and of the earlier \<open>getItemsToScroll\<close> kept in a
  comment) ends with the same \<open>activeBreakpoint\<close> as the ascending last-match loop of
  \<open>getItemsToScroll\<close>, namely the largest key at most the width. The two
  implementations of \<open>getItemsToScroll\<close> read the \<open>itemsToScroll\<close> of that one
  override, the descending one with \<open>||\<close> and the ascending one with a test against
  \<open>undefined\<close>; so they return the same value whenever the field is absent or truthy
  (and when no breakpoint is active), and not in general.
\<close>

theorem selection_loops_agree:
  "getItemsToShow_loop R w (rev (sort (map fst R))) (None, base) =
     Inr (getItemsToScroll_loop w (sort (map fst R)) None,
          (case getItemsToScroll_loop w (sort (map fst R)) None of
             None \<Rightarrow> base
           | Some k \<Rightarrow>
               (case map_of R k of
                  None \<Rightarrow> base
                | Some config \<Rightarrow> js_or (ov_itemsToShow config) base)))
   \<and> getItemsToScroll_loop w (sort (map fst R)) None = largest_key R w
   \<and> getItemsToScroll_descending_loop R w (rev (sort (map fst R))) (None, base) =
     Inr (getItemsToScroll_loop w (sort (map fst R)) None,
          (case active_override R w of
             None \<Rightarrow> base
           | Some ov \<Rightarrow> js_or (ov_itemsToScroll ov) base))
   \<and> (responsive (options W) = Some R \<and> offsetWidth C = w \<longrightarrow>
        getItemsToScroll_descending W C =
          Inr (case active_override R w of
                 None \<Rightarrow> itemsToScroll (options W)
               | Some ov \<Rightarrow> js_or (ov_itemsToScroll ov) (itemsToScroll (options W)))
        \<and> getItemsToScroll W C =
          Inr (case active_override R w of
                 None \<Rightarrow> itemsToScroll (options W)
               | Some ov \<Rightarrow>
                   (case ov_itemsToScroll ov of
                      Some v \<Rightarrow> v
                    | None \<Rightarrow> itemsToScroll (options W)))
        \<and> ((\<forall>ov v. active_override R w = Some ov \<and> ov_itemsToScroll ov = Some v
                  \<longrightarrow> truthy v)
             \<longrightarrow> getItemsToScroll_descending W C = getItemsToScroll W C))"
proof -
  have loops: "getItemsToShow_loop R w (rev (sort (map fst R))) (None, base) =
     Inr (getItemsToScroll_loop w (sort (map fst R)) None,
          (case getItemsToScroll_loop w (sort (map fst R)) None of
             None \<Rightarrow> base
           | Some k \<Rightarrow>
               (case map_of R k of
                  None \<Rightarrow> base
                | Some config \<Rightarrow> js_or (ov_itemsToShow config) base)))"
    by (simp add: getItemsToShow_loop_largest getItemsToScroll_loop_largest active_override_def
        split: option.splits)
  have asc: "getItemsToScroll_loop w (sort (map fst R)) None = largest_key R w"
    by (rule getItemsToScroll_loop_largest)
  have desc: "getItemsToScroll_descending_loop R w (rev (sort (map fst R))) (None, base) =
     Inr (getItemsToScroll_loop w (sort (map fst R)) None,
          (case active_override R w of
             None \<Rightarrow> base
           | Some ov \<Rightarrow> js_or (ov_itemsToScroll ov) base))"
    by (simp add: getItemsToScroll_descending_loop_largest getItemsToScroll_loop_largest)
  have vals: "getItemsToScroll_descending W C =
          Inr (case active_override R w of
                 None \<Rightarrow> itemsToScroll (options W)
               | Some ov \<Rightarrow> js_or (ov_itemsToScroll ov) (itemsToScroll (options W)))
        \<and> getItemsToScroll W C =
          Inr (case active_override R w of
                 None \<Rightarrow> itemsToScroll (options W)
               | Some ov \<Rightarrow>
                   (case ov_itemsToScroll ov of
                      Some v \<Rightarrow> v
                    | None \<Rightarrow> itemsToScroll (options W)))
        \<and> ((\<forall>ov v. active_override R w = Some ov \<and> ov_itemsToScroll ov = Some v
                  \<longrightarrow> truthy v)
             \<longrightarrow> getItemsToScroll_descending W C = getItemsToScroll W C)"
    if "responsive (options W) = Some R" "offsetWidth C = w"
    using that
    by (auto simp: getItemsToScroll_descending_resolved getItemsToScroll_override
        split: option.splits)
  from loops asc desc vals show ?thesis by blast
qed

text \<open>
  At width 500 the scenario's breakpoint 0 is active, with \<open>itemsToScroll: 1\<close>: both
  implementations return 1.
\<close>

theorem selection_loops_agree_witness:
  "getItemsToShow_loop scenario_breakpoints 500 [1024, 767, 0] (None, Fin 3) =
     Inr (Some 0, Fin 1)
   \<and> getItemsToScroll_loop 500 [0, 767, 1024] None = Some 0
   \<and> getItemsToScroll_descending_loop scenario_breakpoints 500 [1024, 767, 0] (None, Fin 3) =
     Inr (Some 0, Fin 1)
   \<and> getItemsToScroll_descending scenario_widget (container_at 500 (Fin 0)) = Inr (Fin 1)
   \<and> getItemsToScroll scenario_widget (container_at 500 (Fin 0)) = Inr (Fin 1)"
  using selection_loops_agree[of scenario_breakpoints 500 "Fin 3" scenario_widget
      "container_at 500 (Fin 0)"]
  by (simp add: scenario_widget_def constructor_fields_def spread_def defaults_def
      no_options_def container_at_def scenario_breakpoints_def largest_key_def
      active_override_def)

text \<open>
  C9 as it is stated fails in its second half: with the override
  \<open>{itemsToShow: 0, itemsToScroll: 0}\<close> under the key 0 and the base \<open>itemsToScroll\<close> 2,
  at width 800 both loops select the breakpoint 0, the descending implementation
  returns the base value 2 and the ascending one returns 0.
\<close>

theorem selection_loops_agree_counterexample:
  "getItemsToScroll_descending_loop zero_breakpoints 800 (rev (sort (map fst zero_breakpoints)))
       (None, Fin 2) = Inr (Some 0, Fin 2)
   \<and> getItemsToScroll_loop 800 (sort (map fst zero_breakpoints)) None = Some 0
   \<and> getItemsToScroll_descending zero_widget (container_at 800 (Fin 0)) = Inr (Fin 2)
   \<and> getItemsToScroll zero_widget (container_at 800 (Fin 0)) = Inr (Fin 0)"
  by (simp add: getItemsToScroll_descending_def getItemsToScroll_def zero_widget_def
      constructor_fields_def spread_def defaults_def no_options_def container_at_def
      zero_breakpoints_def)

text \<open>
  C10. When the override of the active breakpoint sets both fields to \<open>0\<close>,
  \<open>getItemsToShow\<close> discards the \<open>0\<close> and returns the base value, and
  \<open>getItemsToScroll\<close> returns the \<open>0\<close>.
\<close>

theorem zero_override_asymmetry:
  assumes "responsive (options W) = Some R"
    and "active_override R (offsetWidth C) = Some ov"
    and "ov_itemsToShow ov = Some (Fin 0)"
    and "ov_itemsToScroll ov = Some (Fin 0)"
  shows "getItemsToShow W C = Inr (itemsToShow (options W))
    \<and> getItemsToScroll W C = Inr (Fin 0)"
  using assms getItemsToShow_resolved[of W C] getItemsToScroll_resolved[of W C]
  by (simp add: resolved_itemsToShow_def resolved_itemsToScroll_def spec_resolve_def)

theorem zero_override_asymmetry_witness:
  "getItemsToShow zero_widget (container_at 800 (Fin 0)) = Inr (Fin 3)
   \<and> getItemsToScroll zero_widget (container_at 800 (Fin 0)) = Inr (Fin 0)"
  using zero_override_asymmetry[of zero_widget zero_breakpoints "container_at 800 (Fin 0)"
      "\<lparr>ov_itemsToShow = Some (Fin 0), ov_itemsToScroll = Some (Fin 0)\<rparr>"]
  by (simp add: zero_widget_def constructor_fields_def spread_def defaults_def
      no_options_def container_at_def active_override_def largest_key_def
      zero_breakpoints_def)

section \<open>Claims about layout and navigation\<close>

lemma floor_rat_numeral [simp]:
  "\<lfloor>(numeral a :: rat) / numeral b\<rfloor> = numeral a div numeral b"
  using floor_divide_of_int_eq[of "numeral a" "numeral b", where ?'a = rat] by simp

lemmas example_defs =
  constructor_fields_def spread_def defaults_def no_options_def container_at_def
  scenario_widget_def scenario_breakpoints_def zero_widget_def zero_breakpoints_def
  two_up_widget_def three_up_widget_def four_up_widget_def mouse_event_def
  dragging_widget_def invalid_options_def invalid_widget_def

lemmas method_defs =
  getItemsToShow_def getItemsToShow_state_def getItemsToScroll_def
  getItemsToScroll_descending_def getItemWidth_def
  scrollTo_def scrollAmount_def prev_def next'_def snapToNearest_activeIndex_def
  snapToNearest_def updateActiveDot_activeIndex_def event_x_def startDrag_def endDrag_def
  update_def handleResize_def js_sub_def strict_neq_def signed_inf_def Let_def

lemma getItemWidth_resolved:
  "getItemWidth W C =
     Inr (js_sub (js_div (Fin (of_int (offsetWidth C))) (resolved_itemsToShow W C))
            (gap (options W)))"
  by (simp add: getItemWidth_def getItemsToShow_resolved)

lemma js_sub_Fin: "js_sub (Fin a) (Fin b) = Fin (a - b)"
  by (simp add: js_sub_def)

text \<open>
  C6. \<open>getItemWidth\<close> returns \<open>containerWidth / itemsToShow - gap\<close> in JavaScript
  arithmetic, where \<open>itemsToShow\<close> is what \<open>getItemsToShow\<close> returns; for finite numbers
  and a count other than zero this is the quotient minus the gap.
\<close>

theorem item_width_formula:
  "\<exists>n. getItemsToShow W C = Inr n
     \<and> getItemWidth W C =
         Inr (js_sub (js_div (Fin (of_int (offsetWidth C))) n) (gap (options W)))
     \<and> (\<forall>a g. n = Fin a \<and> a \<noteq> 0 \<and> gap (options W) = Fin g \<longrightarrow>
           getItemWidth W C = Inr (Fin (of_int (offsetWidth C) / a - g)))"
  by (auto simp: getItemsToShow_resolved getItemWidth_resolved js_sub_Fin)

text \<open>\<open>itemWidth(1000, 4, 20) = 230\<close>.\<close>

theorem item_width_formula_witness:
  "getItemWidth four_up_widget (container_at 1000 (Fin 0)) = Inr (Fin 230)"
proof -
  let ?W = four_up_widget and ?C = "container_at 1000 (Fin 0)"
  from item_width_formula[of ?W ?C] obtain n where
    n: "getItemsToShow ?W ?C = Inr n"
    and w: "\<forall>a g. n = Fin a \<and> a \<noteq> 0 \<and> gap (options ?W) = Fin g \<longrightarrow>
           getItemWidth ?W ?C = Inr (Fin (of_int (offsetWidth ?C) / a - g))"
    by blast
  have "getItemsToShow ?W ?C = Inr (Fin 4)"
    by (simp add: method_defs example_defs)
  with n have "n = Fin 4" by simp
  moreover have "gap (options ?W) = Fin 20" by (simp add: example_defs)
  ultimately have "getItemWidth ?W ?C = Inr (Fin (of_int (offsetWidth ?C) / 4 - 20))"
    using w by simp
  then show ?thesis by (simp add: example_defs)
qed

text \<open>
  C7. In every state \<open>prev()\<close> and \<open>next()\<close> return normally and request one smooth
  relative scroll, by \<open>-scrollAmount\<close> and \<open>+scrollAmount\<close>, where
  \<open>scrollAmount = (itemWidth + gap) * n\<close>, \<open>itemWidth\<close> is what \<open>getItemWidth\<close> returns
  and \<open>n\<close> is the breakpoint-resolved \<open>itemsToScroll\<close>.
\<close>

theorem prev_next_scroll_amount:
  "\<exists>w n. getItemWidth W C = Inr w
     \<and> getItemsToScroll W C = Inr n
     \<and> n = resolved_itemsToScroll W C
     \<and> prev W C = Inr [ScrollBy (js_neg (js_mul (js_add w (gap (options W))) n)) ''smooth'']
     \<and> next' W C = Inr [ScrollBy (js_mul (js_add w (gap (options W))) n) ''smooth'']"
  by (simp add: prev_def next'_def scrollAmount_def getItemWidth_resolved
      getItemsToScroll_resolved)

theorem prev_next_scroll_amount_witness:
  "prev scenario_widget (container_at 800 (Fin 0)) = Inr [ScrollBy (Fin (- 800)) ''smooth'']
   \<and> next' scenario_widget (container_at 800 (Fin 0)) = Inr [ScrollBy (Fin 800) ''smooth'']"
proof -
  let ?W = scenario_widget and ?C = "container_at 800 (Fin 0)"
  from prev_next_scroll_amount[of ?W ?C] obtain w n where
    w: "getItemWidth ?W ?C = Inr w" and n: "getItemsToScroll ?W ?C = Inr n"
    and p: "prev ?W ?C = Inr [ScrollBy (js_neg (js_mul (js_add w (gap (options ?W))) n)) ''smooth'']"
    and x: "next' ?W ?C = Inr [ScrollBy (js_mul (js_add w (gap (options ?W))) n) ''smooth'']"
    by blast
  have "getItemWidth ?W ?C = Inr (Fin 380)" by (simp add: method_defs example_defs)
  with w have w': "w = Fin 380" by simp
  have "getItemsToScroll ?W ?C = Inr (Fin 2)" by (simp add: method_defs example_defs)
  with n have n': "n = Fin 2" by simp
  have g: "gap (options ?W) = Fin 20" by (simp add: example_defs)
  from p x show ?thesis unfolding w' n' g by simp
qed

section \<open>Claims about validation\<close>




section \<open>Claims about dragging\<close>

text \<open>
  C8, as amended. A pointer-down event is handled in the same way in every state, the
  state \<open>Dragging\<close> included, and \<open>isDragging\<close> is set in every case. When the
  coordinate of the event can be read, that is when \<open>e.pageX\<close> is truthy, or else
  \<open>e.touches\<close> has a first touch, \<open>startX\<close> becomes that coordinate and \<open>scrollLeft\<close> the
  current scroll offset of the container. When it cannot be read (\<open>e.pageX\<close> absent or
  falsy and no first touch, as for a mouse event at \<open>pageX = 0\<close>), \<open>startDrag\<close> throws
  a \<open>TypeError\<close> and leaves \<open>startX\<close> and \<open>scrollLeft\<close> as they were.
\<close>

theorem startDrag_restarts:
  "(\<forall>x. pageX e = Some x \<and> truthy x \<longrightarrow>
      startDrag e C W =
        Inr (W\<lparr>isDragging := True, startX := x, scrollLeft := container_scrollLeft C\<rparr>,
             [SetScrollBehavior ''auto'', SetCursor ''grabbing'']))
   \<and> (\<forall>t ts. (\<forall>x. pageX e = Some x \<longrightarrow> \<not> truthy x) \<and> touches e = Some (t # ts) \<longrightarrow>
      startDrag e C W =
        Inr (W\<lparr>isDragging := True, startX := t, scrollLeft := container_scrollLeft C\<rparr>,
             [SetScrollBehavior ''auto'', SetCursor ''grabbing'']))
   \<and> ((\<forall>x. pageX e = Some x \<longrightarrow> \<not> truthy x) \<and> (touches e = None \<or> touches e = Some []) \<longrightarrow>
      startDrag e C W = Inl (TypeError, W\<lparr>isDragging := True\<rparr>, []))"
  by (auto simp: startDrag_def event_x_def split: option.splits list.splits)

text \<open>
  While dragging, a mouse event at \<open>x = 50\<close> restarts the session, and a mouse event
  at \<open>x = 0\<close> throws.
\<close>

theorem startDrag_restarts_witness:
  "startDrag (mouse_event (Fin 50)) (container_at 1000 (Fin 100)) dragging_widget =
     Inr (dragging_widget\<lparr>isDragging := True, startX := Fin 50, scrollLeft := Fin 100\<rparr>,
          [SetScrollBehavior ''auto'', SetCursor ''grabbing''])
   \<and> startDrag (mouse_event (Fin 0)) (container_at 1000 (Fin 100)) dragging_widget =
     Inl (TypeError, dragging_widget\<lparr>isDragging := True\<rparr>, [])"
  using startDrag_restarts[of "mouse_event (Fin 50)" "container_at 1000 (Fin 100)"
      dragging_widget]
    startDrag_restarts[of "mouse_event (Fin 0)" "container_at 1000 (Fin 100)"
      dragging_widget]
  by (simp add: mouse_event_def container_at_def)

text \<open>
  C8 as it is stated fails: a first pointer-down at \<open>x = 10\<close> starts a drag, and a second
  pointer-down at \<open>x = 50\<close>, arriving while \<open>isDragging\<close> is true and the container is
  scrolled to 100, replaces \<open>startX = 10\<close> by 50 and \<open>scrollLeft = 0\<close> by 100.
\<close>

theorem startDrag_noop_counterexample:
  "startDrag (mouse_event (Fin 10)) (container_at 1000 (Fin 0)) two_up_widget =
     Inr (dragging_widget, [SetScrollBehavior ''auto'', SetCursor ''grabbing''])
   \<and> isDragging dragging_widget
   \<and> startX dragging_widget = Fin 10
   \<and> scrollLeft dragging_widget = Fin 0
   \<and> (case startDrag (mouse_event (Fin 50)) (container_at 1000 (Fin 100)) dragging_widget of
        Inl err \<Rightarrow> False
      | Inr (W', fx) \<Rightarrow> startX W' = Fin 50 \<and> scrollLeft W' = Fin 100)"
  by (simp add: method_defs example_defs)

section \<open>Where the code departs from the snapping and reconciliation formulas\<close>

text \<open>
  C3. With \<open>itemsToShow = itemsToScroll = 2\<close>, gap 20 and a container of width 1000
  the items are 480 wide and a group is 1000 wide. A drag released at the scroll
  offset 1000, the start of group 1, computes \<open>activeIndex = round(1000 / 500) = 2\<close>:
  the divisor is the stride of one item, not of \<open>itemsToScroll\<close> items, for which
  the formula of the specification gives 1. \<open>scrollTo(2)\<close> then requests the offset
  2000. The index that \<open>updateActiveDot\<close> computes at the same offset is 1.
\<close>

theorem endDrag_snaps_to_item_index:
  "getItemWidth two_up_widget (container_at 1000 (Fin 1000)) = Inr (Fin 480)
   \<and> snapToNearest_activeIndex two_up_widget (container_at 1000 (Fin 1000)) = Inr (Fin 2)
   \<and> spec_pageForOffset 1000 480 20 2 = 1
   \<and> endDrag (container_at 1000 (Fin 1000)) (two_up_widget\<lparr>isDragging := True\<rparr>) =
       Inr (two_up_widget,
            [SetScrollBehavior ''smooth'', SetCursor ''grab'', ScrollTo (Fin 2000) ''smooth''])
   \<and> updateActiveDot_activeIndex two_up_widget (container_at 1000 (Fin 1000)) = Inr (Fin 1)"
  by (simp add: method_defs example_defs spec_pageForOffset_def round_half_away_def)

text \<open>
  C5. With \<open>itemsToShow = 3\<close>, gap 20 and a container of width 900 the items are 280
  wide. \<open>scrollTo(2)\<close> requests the offset 1800; at that offset the snap computation
  gives 6, not 2, while the round trip of the specification's formulas gives 2, and so
  does the index that \<open>updateActiveDot\<close> computes.
\<close>

theorem snap_after_scrollTo_not_identity:
  "getItemWidth three_up_widget (container_at 900 (Fin 0)) = Inr (Fin 280)
   \<and> scrollTo three_up_widget (container_at 900 (Fin 0)) (Fin 2) =
       Inr [ScrollTo (Fin 1800) ''smooth'']
   \<and> snapToNearest_activeIndex three_up_widget (container_at 900 (Fin 1800)) = Inr (Fin 6)
   \<and> spec_pageForOffset (spec_offsetForPage 2 280 20 3) 280 20 3 = 2
   \<and> updateActiveDot_activeIndex three_up_widget (container_at 900 (Fin 1800)) = Inr (Fin 2)"
  by (simp add: method_defs example_defs spec_pageForOffset_def spec_offsetForPage_def
      round_half_away_def)

text \<open>
  C2. The scenario widget in a container of width 1024 shows 3 items of width
  \<open>964 / 3\<close>, and the offset 2048 is the start of page 2. When the container shrinks to
  1000 the breakpoint 767 becomes active (2 items of width 480). \<open>handleResize\<close>
  computes the page index with the new item width and the old count,
  \<open>round(2048 / (500 * 3)) = 1\<close>, and sets the offset 1000; the formula of the
  specification, with the old item width, gives page 2 and the offset 2000.
\<close>

theorem handleResize_uses_new_item_width:
  "getItemWidth scenario_widget (container_at 1024 (Fin 2048)) = Inr (Fin (964 / 3))
   \<and> handleResize (container_at 1000 (Fin 2048)) scenario_widget =
       Inr (scenario_widget\<lparr>currentBreakpoint :=
              Some \<lparr>bp_itemsToShow = Fin 2, bp_itemsToScroll = Fin 2\<rparr>\<rparr>,
            [SetItemWidth (Fin 480), SetScrollBehavior ''auto'', SetScrollLeft (Fin 1000),
             SetScrollBehavior ''smooth''])
   \<and> spec_reconcile 2048 (964 / 3) 20 3 480 20 2 = 2000"
  by (simp add: method_defs example_defs spec_reconcile_def round_half_away_def)

end
